theory Spec2Isabelle
  imports Complex_Main "HOL-Library.Word" "HOL-Library.Monad_Syntax"
begin

section \<open>The prediction routine m3f_tib_predictMex\<close>

text \<open>
  The file \<^verbatim>\<open>version-2014_02/mex/m3f_tib_predictMex.c\<close> holds two functions,
  \<^verbatim>\<open>addOffsets\<close> and \<^verbatim>\<open>mexFunction\<close>. Both are embedded below.

  \<^item> A C array is a list and a pointer into it is the list with an offset. A read or a
    write outside the list is undefined behaviour in C; here it is the value \<open>None\<close>,
    and it makes the whole call \<open>None\<close>.
  \<^item> \<^verbatim>\<open>uint32_t\<close> is \<open>32 word\<close>, so that \<^verbatim>\<open>users[e]-1\<close> and the products with
    \<^verbatim>\<open>KU\<close> wrap around as they do in C.
  \<^item> \<^verbatim>\<open>double\<close> is a type parameter \<open>'a\<close> with \<open>0\<close>, \<open>+\<close>, \<open>*\<close> and \<open>/\<close> of the
    syntactic classes only (no law is assumed of them), the function \<^verbatim>\<open>exp\<close> of
    math.h is the parameter \<open>ex\<close> and the conversion of an \<^verbatim>\<open>mwSize\<close> to
    \<^verbatim>\<open>double\<close> is the parameter \<open>cvt\<close>. What is proved for every \<open>'a\<close>, \<open>ex\<close> and
    \<open>cvt\<close> holds for IEEE doubles; what needs the laws of arithmetic is proved at
    \<open>'a = real\<close>, \<open>ex = exp\<close>, \<open>cvt = real\<close>, where rounding, infinities and NaN
    do not exist.
  \<^item> The loops marked \<^verbatim>\<open>#pragma omp parallel for\<close> are run in the order of their
    index: iteration \<open>e\<close> reads and writes \<^verbatim>\<open>preds[e]\<close> only.
  \<^item> The row counts that \<^verbatim>\<open>mxGetM\<close> returns are taken to fit the C type they are
    stored in (\<^verbatim>\<open>int\<close>, \<^verbatim>\<open>ptrdiff_t\<close>), and the struct array of samples to be a
    vector, for which the larger of its two dimensions is its number of elements.
  \<^item> The two calls of \<^verbatim>\<open>mexPrintf\<close> and the call of \<^verbatim>\<open>omp_set_num_threads\<close> do not
    touch the data and are left out.
\<close>

subsection \<open>Arrays and loops\<close>

type_synonym u32 = "32 word"

text \<open>Reading \<^verbatim>\<open>xs[i]\<close>.\<close>

definition rd :: "'a list \<Rightarrow> nat \<Rightarrow> 'a option" where
  "rd xs i = (if i < length xs then Some (xs ! i) else None)"

text \<open>The statement \<^verbatim>\<open>preds[e] += v\<close>.\<close>

definition add_at :: "'a::plus list \<Rightarrow> nat \<Rightarrow> 'a \<Rightarrow> 'a list option" where
  "add_at preds e v = (if e < length preds then Some (preds[e := preds ! e + v]) else None)"

text \<open>The statement \<^verbatim>\<open>preds[e] /= v\<close>.\<close>

definition div_at :: "'a::inverse list \<Rightarrow> nat \<Rightarrow> 'a \<Rightarrow> 'a list option" where
  "div_at preds e v = (if e < length preds then Some (preds[e := preds ! e / v]) else None)"

text \<open>
  \<^verbatim>\<open>for(i = 0; i < n; i++) body\<close>: the body is run for \<open>i = 0, \<dots>, n - 1\<close> in this
  order on the state \<open>s\<close>, and stops at the first undefined step.
\<close>

primrec for_loop :: "nat \<Rightarrow> (nat \<Rightarrow> 's \<Rightarrow> 's option) \<Rightarrow> 's \<Rightarrow> 's option" where
  "for_loop 0 body s = Some s"
| "for_loop (Suc n) body s = Option.bind (for_loop n body s) (body n)"

subsection \<open>addOffsets (lines 73 to 100)\<close>

text \<open>
  \<open>KU\<close> is the value of the \<^verbatim>\<open>int\<close> parameter; in \<^verbatim>\<open>(items[e]-1)*KU\<close> it is converted
  to \<^verbatim>\<open>unsigned int\<close>, and the index is computed modulo \<open>2 ^ 32\<close>. \<open>zU\<close> is \<open>None\<close>
  for the NULL pointer.
\<close>

definition addOffsets ::
  "('a \<Rightarrow> 'a) \<Rightarrow> u32 list \<Rightarrow> u32 list \<Rightarrow> int \<Rightarrow> nat \<Rightarrow> 'a list \<Rightarrow> 'a list \<Rightarrow>
   u32 list option \<Rightarrow> 'a::{plus,times} list \<Rightarrow> 'a list option" where
  "addOffsets ex users items KU numExamples logthetaU d zU preds =
    (case zU of
       Some z \<Rightarrow>
         for_loop numExamples (\<lambda>e p. do {
           it \<leftarrow> rd items e;
           ze \<leftarrow> rd z e;
           v \<leftarrow> rd d (unat ((it - 1) * word_of_int KU + (ze - 1)));
           add_at p e v }) preds
     | None \<Rightarrow>
         if KU > 1 then
           for_loop numExamples (\<lambda>e p. do {
             us \<leftarrow> rd users e;
             it \<leftarrow> rd items e;
             let logthetaPtr = unat ((us - 1) * word_of_int KU);
             let dPtr = unat ((it - 1) * word_of_int KU);
             for_loop (nat KU) (\<lambda>i q. do {
               dv \<leftarrow> rd d (dPtr + i);
               lt \<leftarrow> rd logthetaU (logthetaPtr + i);
               add_at q e (dv * ex lt) }) p }) preds
         else
           for_loop numExamples (\<lambda>e p. do {
             it \<leftarrow> rd items e;
             v \<leftarrow> rd d (unat ((it - 1) * word_of_int KU));
             add_at p e v }) preds)"

subsection \<open>mexFunction (lines 102 to 174)\<close>

text \<open>
  An \<^verbatim>\<open>mxArray\<close> of doubles: \<open>mxM\<close> is what \<^verbatim>\<open>mxGetM\<close> returns and \<open>mxPr\<close> the data
  that \<^verbatim>\<open>mxGetPr\<close> points to, in column-major order.
\<close>

record 'a mxArray =
  mxM :: nat
  mxPr :: "'a list"

text \<open>One element of the struct array \<^verbatim>\<open>samples\<close>, with the fields the code reads.\<close>

record 'a sample =
  s_chi :: "'a mxArray"
  s_logthetaU :: "'a mxArray"
  s_logthetaM :: "'a mxArray"
  s_a :: "'a mxArray"
  s_b :: "'a mxArray"
  s_c :: "'a mxArray"
  s_d :: "'a mxArray"

text \<open>
  The right-hand sides \<^verbatim>\<open>prhs[0..5]\<close>: \<open>zU\<close> and \<open>zM\<close> are \<open>None\<close> when \<^verbatim>\<open>mxGetData\<close>
  returns NULL (an empty array); the three logicals of \<^verbatim>\<open>prhs[5]\<close> are \<open>addBase\<close>,
  \<open>addC\<close> and \<open>addD\<close>.
\<close>

record 'a prhs =
  users :: "u32 list"
  items :: "u32 list"
  samples :: "'a sample list"
  zU :: "u32 list option"
  zM :: "u32 list option"
  addBase :: bool
  addC :: bool
  addD :: bool

text \<open>
  Modelled from the spec: \<^verbatim>\<open>ddot\<close> is the BLAS routine declared in blas.h, which is not
  part of the repository; the spec calls it the inner product over the F-length factor
  vectors. With both strides 1, as the call passes them, it sums \<open>dx[i] * dy[i]\<close> for
  \<open>i < n\<close> into an accumulator that starts at 0. The two vectors are given as an array
  and an offset into it.
\<close>

definition ddot :: "int \<Rightarrow> 'a list \<Rightarrow> nat \<Rightarrow> 'a list \<Rightarrow> nat \<Rightarrow> 'a::{zero,plus,times} option" where
  "ddot n dx xoff dy yoff =
     for_loop (nat n) (\<lambda>i dtemp. do {
       x \<leftarrow> rd dx (xoff + i);
       y \<leftarrow> rd dy (yoff + i);
       Some (dtemp + x * y) }) 0"

text \<open>
  The body of the loop over the samples (lines 139 to 166) for the sample \<open>s\<close>. In
  \<^verbatim>\<open>numFacs*(users[e]-1)\<close> the \<^verbatim>\<open>uint32_t\<close> difference is converted to \<^verbatim>\<open>ptrdiff_t\<close>.
\<close>

definition sample_body ::
  "('a \<Rightarrow> 'a) \<Rightarrow> 'a prhs \<Rightarrow> 'a \<Rightarrow> int \<Rightarrow> int \<Rightarrow> int \<Rightarrow> nat \<Rightarrow> 'a sample \<Rightarrow>
   'a::{zero,plus,times} list \<Rightarrow> 'a list option" where
  "sample_body ex inp chi KU KM numFacs numExamples s preds = do {
     let logthetaU = mxPr (s_logthetaU s);
     let logthetaM = mxPr (s_logthetaM s);
     let a = mxPr (s_a s);
     let b = mxPr (s_b s);
     let c = mxPr (s_c s);
     let d = mxPr (s_d s);
     preds \<leftarrow> (if KU > 0 \<and> addD inp
               then addOffsets ex (users inp) (items inp) KU numExamples logthetaU d (zU inp) preds
               else Some preds);
     preds \<leftarrow> (if KM > 0 \<and> addC inp
               then addOffsets ex (items inp) (users inp) KM numExamples logthetaM c (zM inp) preds
               else Some preds);
     if addBase inp then
       if numFacs > 0 then
         for_loop numExamples (\<lambda>e p. do {
           us \<leftarrow> rd (users inp) e;
           it \<leftarrow> rd (items inp) e;
           let aVec = nat (numFacs * uint (us - 1));
           let bVec = nat (numFacs * uint (it - 1));
           dp \<leftarrow> ddot numFacs a aVec b bVec;
           add_at p e (chi + dp) }) preds
       else
         for_loop numExamples (\<lambda>e p. add_at p e chi) preds
     else Some preds }"

text \<open>
  Lines 110 to 133: what is read once, from the arguments and from the sample of
  index 0, before the loop.
\<close>

definition numExamples_of :: "'a prhs \<Rightarrow> nat" where
  "numExamples_of inp = length (users inp)"

definition numSamples_of :: "'a prhs \<Rightarrow> nat" where
  "numSamples_of inp = length (samples inp)"

text \<open>
  Lines 119 to 167: the accumulation over the samples, into an array of \<open>numExamples\<close>
  zeros.
\<close>

definition form_predictions ::
  "('a \<Rightarrow> 'a) \<Rightarrow> 'a prhs \<Rightarrow> 'a::{zero,plus,times} list option" where
  "form_predictions ex inp = do {
     let numExamples = numExamples_of inp;
     let numSamples = numSamples_of inp;
     s0 \<leftarrow> rd (samples inp) 0;
     chi \<leftarrow> rd (mxPr (s_chi s0)) 0;
     let KU = int (mxM (s_logthetaU s0));
     let KM = int (mxM (s_logthetaM s0));
     let numFacs = int (mxM (s_a s0));
     let preds = replicate numExamples 0;
     for_loop numSamples (\<lambda>t p. do {
       s \<leftarrow> rd (samples inp) t;
       sample_body ex inp chi KU KM numFacs numExamples s p }) preds }"

text \<open>Lines 168 to 172: the average, and with it the whole of \<^verbatim>\<open>mexFunction\<close>.\<close>

definition mexFunction ::
  "('a \<Rightarrow> 'a) \<Rightarrow> (nat \<Rightarrow> 'a) \<Rightarrow> 'a prhs \<Rightarrow> 'a::{zero,plus,times,inverse} list option" where
  "mexFunction ex cvt inp = do {
     let numExamples = numExamples_of inp;
     let numSamples = numSamples_of inp;
     preds \<leftarrow> form_predictions ex inp;
     if numSamples > 1 then
       for_loop numExamples (\<lambda>e p. div_at p e (cvt numSamples)) preds
     else Some preds }"

subsection \<open>What one example receives\<close>

text \<open>
  Iteration \<open>e\<close> of every loop over the examples reads and writes \<^verbatim>\<open>preds[e]\<close> only, so
  each function of the program has a counterpart on one accumulator value. These
  counterparts use the unchecked \<open>!\<close>: they are only ever related to a run that
  returned, in which every read was in range.
\<close>

text \<open>The inner loop of the second branch of \<^verbatim>\<open>addOffsets\<close> (lines 89 and 90).\<close>

definition integ_val :: "('a \<Rightarrow> 'a) \<Rightarrow> 'a list \<Rightarrow> 'a list \<Rightarrow> nat \<Rightarrow> nat \<Rightarrow> nat \<Rightarrow> 'a::{plus,times} \<Rightarrow> 'a" where
  "integ_val ex logthetaU d logthetaPtr dPtr K acc =
     foldl (\<lambda>x i. x + d ! (dPtr + i) * ex (logthetaU ! (logthetaPtr + i))) acc [0..<K]"

text \<open>The three branches of \<^verbatim>\<open>addOffsets\<close>, for the indices and the topic of one example.\<close>

definition offset_val ::
  "('a \<Rightarrow> 'a) \<Rightarrow> int \<Rightarrow> 'a list \<Rightarrow> 'a list \<Rightarrow> u32 \<Rightarrow> u32 \<Rightarrow> u32 option \<Rightarrow> 'a::{plus,times} \<Rightarrow> 'a" where
  "offset_val ex KU logthetaU d us it ze acc =
     (case ze of
        Some k \<Rightarrow> acc + d ! unat ((it - 1) * word_of_int KU + (k - 1))
      | None \<Rightarrow>
          if KU > 1 then
            integ_val ex logthetaU d (unat ((us - 1) * word_of_int KU))
              (unat ((it - 1) * word_of_int KU)) (nat KU) acc
          else acc + d ! unat ((it - 1) * word_of_int KU))"

text \<open>The value of \<open>ddot\<close>.\<close>

definition dot_val :: "int \<Rightarrow> 'a list \<Rightarrow> nat \<Rightarrow> 'a list \<Rightarrow> nat \<Rightarrow> 'a::{zero,plus,times}" where
  "dot_val n dx xoff dy yoff = foldl (\<lambda>t i. t + dx ! (xoff + i) * dy ! (yoff + i)) 0 [0..<nat n]"

text \<open>Lines 152 to 166.\<close>

definition base_val :: "bool \<Rightarrow> 'a \<Rightarrow> int \<Rightarrow> 'a list \<Rightarrow> 'a list \<Rightarrow> u32 \<Rightarrow> u32 \<Rightarrow> 'a::{zero,plus,times} \<Rightarrow> 'a" where
  "base_val fB chi numFacs a b us it acc =
     (if fB then
        if numFacs > 0 then
          acc + (chi + dot_val numFacs a (nat (numFacs * uint (us - 1))) b (nat (numFacs * uint (it - 1))))
        else acc + chi
      else acc)"

text \<open>The body of the loop over the samples.\<close>

definition sample_val ::
  "('a \<Rightarrow> 'a) \<Rightarrow> bool \<Rightarrow> bool \<Rightarrow> bool \<Rightarrow> 'a \<Rightarrow> int \<Rightarrow> int \<Rightarrow> int \<Rightarrow> 'a sample \<Rightarrow>
   u32 \<Rightarrow> u32 \<Rightarrow> u32 option \<Rightarrow> u32 option \<Rightarrow> 'a::{zero,plus,times} \<Rightarrow> 'a" where
  "sample_val ex fB fC fD chi KU KM numFacs s us it zu zm acc =
     (let acc1 = (if KU > 0 \<and> fD
                  then offset_val ex KU (mxPr (s_logthetaU s)) (mxPr (s_d s)) us it zu acc else acc);
          acc2 = (if KM > 0 \<and> fC
                  then offset_val ex KM (mxPr (s_logthetaM s)) (mxPr (s_c s)) it us zm acc1 else acc1)
      in base_val fB chi numFacs (mxPr (s_a s)) (mxPr (s_b s)) us it acc2)"

text \<open>The accumulator after the last sample, and the entry of the output.\<close>

definition example_acc ::
  "('a \<Rightarrow> 'a) \<Rightarrow> bool \<Rightarrow> bool \<Rightarrow> bool \<Rightarrow> 'a sample list \<Rightarrow>
   u32 \<Rightarrow> u32 \<Rightarrow> u32 option \<Rightarrow> u32 option \<Rightarrow> 'a::{zero,plus,times}" where
  "example_acc ex fB fC fD smps us it zu zm =
     (let s0 = smps ! 0;
          chi = mxPr (s_chi s0) ! 0;
          KU = int (mxM (s_logthetaU s0));
          KM = int (mxM (s_logthetaM s0));
          numFacs = int (mxM (s_a s0))
      in foldl (\<lambda>acc s. sample_val ex fB fC fD chi KU KM numFacs s us it zu zm acc) 0 smps)"

definition example_val ::
  "('a \<Rightarrow> 'a) \<Rightarrow> (nat \<Rightarrow> 'a) \<Rightarrow> bool \<Rightarrow> bool \<Rightarrow> bool \<Rightarrow> 'a sample list \<Rightarrow>
   u32 \<Rightarrow> u32 \<Rightarrow> u32 option \<Rightarrow> u32 option \<Rightarrow> 'a::{zero,plus,times,inverse}" where
  "example_val ex cvt fB fC fD smps us it zu zm =
     (if length smps > 1
      then example_acc ex fB fC fD smps us it zu zm / cvt (length smps)
      else example_acc ex fB fC fD smps us it zu zm)"

subsection \<open>The terms of the sum, in real arithmetic\<close>


text \<open>What one call of \<^verbatim>\<open>addOffsets\<close> adds to the slot of one example.\<close>

definition offset_term :: "int \<Rightarrow> real list \<Rightarrow> real list \<Rightarrow> u32 \<Rightarrow> u32 \<Rightarrow> u32 option \<Rightarrow> real" where
  "offset_term K logtheta d us it ze =
     (case ze of
        Some k \<Rightarrow> d ! unat ((it - 1) * word_of_int K + (k - 1))
      | None \<Rightarrow>
          if K > 1 then
            (\<Sum>i<nat K. d ! (unat ((it - 1) * word_of_int K) + i) *
                          exp (logtheta ! (unat ((us - 1) * word_of_int K) + i)))
          else d ! unat ((it - 1) * word_of_int K))"

text \<open>What the two calls of \<^verbatim>\<open>addOffsets\<close> in lines 146 to 150 add.\<close>

definition offsets_term ::
  "bool \<Rightarrow> bool \<Rightarrow> int \<Rightarrow> int \<Rightarrow> real sample \<Rightarrow> u32 \<Rightarrow> u32 \<Rightarrow> u32 option \<Rightarrow> u32 option \<Rightarrow> real" where
  "offsets_term fC fD KU KM s us it zu zm =
     (if KU > 0 \<and> fD then offset_term KU (mxPr (s_logthetaU s)) (mxPr (s_d s)) us it zu else 0) +
     (if KM > 0 \<and> fC then offset_term KM (mxPr (s_logthetaM s)) (mxPr (s_c s)) it us zm else 0)"

text \<open>The inner product of the two factor vectors of an example.\<close>

definition dot_term :: "int \<Rightarrow> real list \<Rightarrow> real list \<Rightarrow> u32 \<Rightarrow> u32 \<Rightarrow> real" where
  "dot_term numFacs a b us it =
     (\<Sum>i<nat numFacs. a ! (nat (numFacs * uint (us - 1)) + i) * b ! (nat (numFacs * uint (it - 1)) + i))"

text \<open>What lines 152 to 166 add, with \<open>chi\<close> as line 119 read it.\<close>

definition base_term :: "bool \<Rightarrow> real \<Rightarrow> int \<Rightarrow> real sample \<Rightarrow> u32 \<Rightarrow> u32 \<Rightarrow> real" where
  "base_term fB chi numFacs s us it =
     (if fB then
        if numFacs > 0 then chi + dot_term numFacs (mxPr (s_a s)) (mxPr (s_b s)) us it else chi
      else 0)"

text \<open>
  What the sample of index \<open>t\<close> adds to the slot of example \<open>e\<close>: the dimensions and
  \<open>chi\<close> are those of the sample of index 0.
\<close>

definition sample_term ::
  "real prhs \<Rightarrow> nat \<Rightarrow> nat \<Rightarrow> real" where
  "sample_term inp t e =
     (let s0 = samples inp ! 0;
          s = samples inp ! t;
          us = users inp ! e;
          it = items inp ! e
      in offsets_term (addC inp) (addD inp) (int (mxM (s_logthetaU s0))) (int (mxM (s_logthetaM s0))) s
           us it (map_option (\<lambda>z. z ! e) (zU inp)) (map_option (\<lambda>z. z ! e) (zM inp)) +
         base_term (addBase inp) (mxPr (s_chi s0) ! 0) (int (mxM (s_a s0))) s us it)"

subsection \<open>Concrete calls\<close>

text \<open>
  The first scenario of the spec: two dyads, rows 1 and 2 against column 1, one sample of
  rank 1 with \<open>a = [2, 3]\<close>, \<open>b = [5]\<close>, \<open>chi = 1\<close> and no topics, the factorization
  flag only.
\<close>

definition rank_one_sample :: "real sample" where
  "rank_one_sample =
     \<lparr>s_chi = \<lparr>mxM = 1, mxPr = [1]\<rparr>,
      s_logthetaU = \<lparr>mxM = 0, mxPr = []\<rparr>,
      s_logthetaM = \<lparr>mxM = 0, mxPr = []\<rparr>,
      s_a = \<lparr>mxM = 1, mxPr = [2, 3]\<rparr>,
      s_b = \<lparr>mxM = 1, mxPr = [5]\<rparr>,
      s_c = \<lparr>mxM = 0, mxPr = []\<rparr>,
      s_d = \<lparr>mxM = 0, mxPr = []\<rparr>\<rparr>"

definition rank_one_input :: "real prhs" where
  "rank_one_input =
     \<lparr>users = [1, 2], items = [1, 1], samples = [rank_one_sample], zU = None, zM = None,
      addBase = True, addC = False, addD = False\<rparr>"

text \<open>
  A call with one user topic: two users, two items, the offsets \<open>d = [7, 9]\<close> of the two
  items, and the flag of the \<open>d\<close> offsets only.
\<close>

definition single_topic_sample :: "real sample" where
  "single_topic_sample =
     \<lparr>s_chi = \<lparr>mxM = 1, mxPr = [0]\<rparr>,
      s_logthetaU = \<lparr>mxM = 1, mxPr = [0, 0]\<rparr>,
      s_logthetaM = \<lparr>mxM = 0, mxPr = []\<rparr>,
      s_a = \<lparr>mxM = 0, mxPr = []\<rparr>,
      s_b = \<lparr>mxM = 0, mxPr = []\<rparr>,
      s_c = \<lparr>mxM = 0, mxPr = []\<rparr>,
      s_d = \<lparr>mxM = 1, mxPr = [7, 9]\<rparr>\<rparr>"

definition single_topic_input :: "real prhs" where
  "single_topic_input =
     \<lparr>users = [1, 2], items = [2, 1], samples = [single_topic_sample], zU = None, zM = None,
      addBase = False, addC = False, addD = True\<rparr>"

text \<open>A sample with factors of rank 1 and no topics, and a sample with the bias only.\<close>

definition factor_sample :: "real \<Rightarrow> real list \<Rightarrow> real list \<Rightarrow> real sample" where
  "factor_sample x a b =
     \<lparr>s_chi = \<lparr>mxM = 1, mxPr = [x]\<rparr>,
      s_logthetaU = \<lparr>mxM = 0, mxPr = []\<rparr>,
      s_logthetaM = \<lparr>mxM = 0, mxPr = []\<rparr>,
      s_a = \<lparr>mxM = 1, mxPr = a\<rparr>,
      s_b = \<lparr>mxM = 1, mxPr = b\<rparr>,
      s_c = \<lparr>mxM = 0, mxPr = []\<rparr>,
      s_d = \<lparr>mxM = 0, mxPr = []\<rparr>\<rparr>"

definition bias_sample :: "real \<Rightarrow> real sample" where
  "bias_sample x =
     \<lparr>s_chi = \<lparr>mxM = 1, mxPr = [x]\<rparr>,
      s_logthetaU = \<lparr>mxM = 0, mxPr = []\<rparr>,
      s_logthetaM = \<lparr>mxM = 0, mxPr = []\<rparr>,
      s_a = \<lparr>mxM = 0, mxPr = []\<rparr>,
      s_b = \<lparr>mxM = 0, mxPr = []\<rparr>,
      s_c = \<lparr>mxM = 0, mxPr = []\<rparr>,
      s_d = \<lparr>mxM = 0, mxPr = []\<rparr>\<rparr>"

text \<open>
  Two samples of rank 1 with the same \<open>chi\<close>, on the two dyads of the first scenario;
  one dyad and two samples of rank 1 that differ in \<open>chi\<close> only; one dyad and two
  samples with nothing but \<open>chi\<close>, 1 and 3; two dyads and one sample with \<open>chi = 4\<close>
  only. All four calls set the factorization flag only.
\<close>

definition two_sample_input :: "real prhs" where
  "two_sample_input =
     \<lparr>users = [1, 2], items = [1, 1], samples = [factor_sample 1 [2, 3] [5], factor_sample 1 [4, 1] [2]],
      zU = None, zM = None, addBase = True, addC = False, addD = False\<rparr>"

definition chi_varies_input :: "real prhs" where
  "chi_varies_input =
     \<lparr>users = [1], items = [1], samples = [factor_sample 1 [2] [5], factor_sample 3 [2] [5]],
      zU = None, zM = None, addBase = True, addC = False, addD = False\<rparr>"

definition two_bias_input :: "real prhs" where
  "two_bias_input =
     \<lparr>users = [1], items = [1], samples = [bias_sample 1, bias_sample 3],
      zU = None, zM = None, addBase = True, addC = False, addD = False\<rparr>"

definition bias_only_input :: "real prhs" where
  "bias_only_input =
     \<lparr>users = [1, 2], items = [1, 1], samples = [bias_sample 4],
      zU = None, zM = None, addBase = True, addC = False, addD = False\<rparr>"

text \<open>One dyad and three samples with \<open>chi = 3\<close> only, the factorization flag set.\<close>

definition three_bias_input :: "real prhs" where
  "three_bias_input =
     \<lparr>users = [1], items = [1], samples = [bias_sample 3, bias_sample 3, bias_sample 3],
      zU = None, zM = None, addBase = True, addC = False, addD = False\<rparr>"

subsection \<open>The factorization term as the spec words it\<close>

text \<open>
  The spec has sample \<open>t\<close> add its own \<open>chi\<close>: \<open>sample_t.chi + dot(a_t[:,rowIdx[e]],
  b_t[:,colIdx[e]])\<close>. \<open>spec_sample_term\<close> is \<open>sample_term\<close> for a call with the
  factorization flag set and \<open>F > 0\<close>, with that one change, and \<open>spec_prediction\<close> is
  the average of these terms over the samples.
\<close>

definition spec_sample_term :: "real prhs \<Rightarrow> nat \<Rightarrow> nat \<Rightarrow> real" where
  "spec_sample_term inp t e =
     (let s0 = samples inp ! 0;
          s = samples inp ! t;
          us = users inp ! e;
          it = items inp ! e
      in offsets_term (addC inp) (addD inp) (int (mxM (s_logthetaU s0))) (int (mxM (s_logthetaM s0))) s
           us it (map_option (\<lambda>z. z ! e) (zU inp)) (map_option (\<lambda>z. z ! e) (zM inp)) +
         (mxPr (s_chi s) ! 0 + dot_term (int (mxM (s_a s0))) (mxPr (s_a s)) (mxPr (s_b s)) us it))"

definition spec_prediction :: "real prhs \<Rightarrow> nat \<Rightarrow> real" where
  "spec_prediction inp e =
     (\<Sum>t<length (samples inp). spec_sample_term inp t e) / real (length (samples inp))"

section \<open>Properties\<close>

subsection \<open>Loops over the examples\<close>

lemma rd_Some: "rd xs i = Some x \<longleftrightarrow> i < length xs \<and> x = xs ! i"
  by (auto simp: rd_def)

lemma add_at_Some: "add_at p e v = Some p' \<longleftrightarrow> e < length p \<and> p' = p[e := p ! e + v]"
  by (auto simp: add_at_def)

lemma div_at_Some: "div_at p e v = Some p' \<longleftrightarrow> e < length p \<and> p' = p[e := p ! e / v]"
  by (auto simp: div_at_def)

lemma for_loop_pointwise:
  assumes step: "\<And>e p p'. e < n \<Longrightarrow> body e p = Some p' \<Longrightarrow> e < length p \<and> p' = p[e := g e (p ! e)]"
    and run: "for_loop n body p = Some p'"
  shows "length p' = length p \<and> n \<le> length p \<and>
         (\<forall>e < length p. p' ! e = (if e < n then g e (p ! e) else p ! e))"
  using step run
proof (induction n arbitrary: p')
  case 0
  then show ?case by simp
next
  case (Suc n)
  from Suc.prems(2) obtain q where q: "for_loop n body p = Some q" and b: "body n q = Some p'"
    by (auto simp: bind_eq_Some_conv)
  have ih: "length q = length p \<and> n \<le> length p \<and>
         (\<forall>e < length p. q ! e = (if e < n then g e (p ! e) else p ! e))"
    using Suc.IH [OF _ q] Suc.prems(1) by (simp add: less_Suc_eq)
  from Suc.prems(1) [OF _ b] have st: "n < length q" "p' = q[n := g n (q ! n)]" by auto
  show ?case using ih st by (auto simp: nth_list_update less_Suc_eq)
qed

lemma for_loop_cong:
  "(\<And>e p. e < n \<Longrightarrow> body1 e p = body2 e p) \<Longrightarrow> for_loop n body1 p = for_loop n body2 p"
proof (induction n)
  case 0
  show ?case by simp
next
  case (Suc n)
  then have "for_loop n body1 p = for_loop n body2 p" by simp
  moreover have "body1 n q = body2 n q" for q using Suc.prems by simp
  ultimately show ?case by (cases "for_loop n body2 p") simp_all
qed

lemma for_loop_numeral:
  "for_loop (numeral k) body s = Option.bind (for_loop (pred_numeral k) body s) (body (pred_numeral k))"
  by (simp add: numeral_eq_Suc)

lemma for_loop_total:
  assumes step: "\<And>e p. e < n \<Longrightarrow> length p = len \<Longrightarrow> body e p = Some (p[e := g e (p ! e)])"
    and len: "length p = len"
  shows "for_loop n body p = Some (map (\<lambda>e. if e < n then g e (p ! e) else p ! e) [0..<len])"
  using step
proof (induction n)
  case 0
  show ?case unfolding len [symmetric] by (simp add: map_nth)
next
  case (Suc n)
  let ?q = "map (\<lambda>e. if e < n then g e (p ! e) else p ! e) [0..<len]"
  have q: "for_loop n body p = Some ?q" using Suc by simp
  have b: "body n ?q = Some (?q[n := g n (?q ! n)])" using Suc.prems by simp
  have "?q[n := g n (?q ! n)] = map (\<lambda>e. if e < Suc n then g e (p ! e) else p ! e) [0..<len]"
    by (rule nth_equalityI) (auto simp: nth_list_update less_Suc_eq)
  with q b show ?case by simp
qed

lemma div_loop_total:
  "for_loop (length p) (\<lambda>e p. div_at p e v) p = Some (map (\<lambda>x. x / v) p)"
proof -
  have "for_loop (length p) (\<lambda>e p. div_at p e v) p =
      Some (map (\<lambda>e. if e < length p then (\<lambda>e x. x / v) e (p ! e) else p ! e) [0..<length p])"
    by (rule for_loop_total) (simp_all add: div_at_def)
  moreover have "map (\<lambda>e. if e < length p then p ! e / v else p ! e) [0..<length p] = map (\<lambda>x. x / v) p"
    by (rule nth_equalityI) simp_all
  ultimately show ?thesis by simp
qed

lemma add_loop_total:
  "for_loop (length p) (\<lambda>e p. add_at p e v) p = Some (map (\<lambda>x. x + v) p)"
proof -
  have "for_loop (length p) (\<lambda>e p. add_at p e v) p =
      Some (map (\<lambda>e. if e < length p then (\<lambda>e x. x + v) e (p ! e) else p ! e) [0..<length p])"
    by (rule for_loop_total) (simp_all add: add_at_def)
  moreover have "map (\<lambda>e. if e < length p then p ! e + v else p ! e) [0..<length p] = map (\<lambda>x. x + v) p"
    by (rule nth_equalityI) simp_all
  ultimately show ?thesis by simp
qed

lemma skip_loop:
  "n \<le> length smps \<Longrightarrow> for_loop n (\<lambda>t p. do { s \<leftarrow> rd smps t; Some p }) p = Some p"
  by (induction n) (simp_all add: rd_def)

subsection \<open>addOffsets on one example\<close>

lemma inner_loop:
  "for_loop K (\<lambda>i q. do {
               dv \<leftarrow> rd d (dPtr + i);
               lt \<leftarrow> rd L (lPtr + i);
               add_at q e (dv * ex lt) }) p = Some p' \<Longrightarrow>
   p' = p[e := integ_val ex L d lPtr dPtr K (p ! e)] \<and> (0 < K \<longrightarrow> e < length p)"
proof (induction K arbitrary: p')
  case 0
  then show ?case by (simp add: integ_val_def)
next
  case (Suc K)
  then show ?case
    by (auto simp: bind_eq_Some_conv rd_Some add_at_Some integ_val_def)
qed

lemma addOffsets_pointwise:
  assumes run: "addOffsets ex us its KU n L d z preds = Some preds'"
  shows "length preds' = length preds \<and> n \<le> length preds \<and>
     (\<forall>e < length preds. preds' ! e =
        (if e < n then offset_val ex KU L d (us ! e) (its ! e) (map_option (\<lambda>z. z ! e) z) (preds ! e)
         else preds ! e))"
proof (cases z)
  case (Some zs)
  let ?g = "\<lambda>e x. offset_val ex KU L d (us ! e) (its ! e) (Some (zs ! e)) x"
  let ?body = "\<lambda>e p. do {
           it \<leftarrow> rd its e;
           ze \<leftarrow> rd zs e;
           v \<leftarrow> rd d (unat ((it - 1) * word_of_int KU + (ze - 1)));
           add_at p e v }"
  have step: "e < length p \<and> p' = p[e := ?g e (p ! e)]" if "?body e p = Some p'" for e p p'
    using that by (auto simp: bind_eq_Some_conv rd_Some add_at_Some offset_val_def)
  have "for_loop n ?body preds = Some preds'"
    using run Some by (simp add: addOffsets_def)
  from for_loop_pointwise [of n ?body ?g, OF step this] show ?thesis
    using Some by simp
next
  case None
  show ?thesis
  proof (cases "KU > 1")
    case True
    let ?g = "\<lambda>e x. offset_val ex KU L d (us ! e) (its ! e) None x"
    let ?body = "\<lambda>e p. do {
             us \<leftarrow> rd us e;
             it \<leftarrow> rd its e;
             let logthetaPtr = unat ((us - 1) * word_of_int KU);
             let dPtr = unat ((it - 1) * word_of_int KU);
             for_loop (nat KU) (\<lambda>i q. do {
               dv \<leftarrow> rd d (dPtr + i);
               lt \<leftarrow> rd L (logthetaPtr + i);
               add_at q e (dv * ex lt) }) p }"
    have step: "e < length p \<and> p' = p[e := ?g e (p ! e)]" if "?body e p = Some p'" for e p p'
      using that True
      by (auto simp: bind_eq_Some_conv rd_Some offset_val_def Let_def dest!: inner_loop)
    have "for_loop n ?body preds = Some preds'"
      using run None True by (simp add: addOffsets_def)
    from for_loop_pointwise [of n ?body ?g, OF step this] show ?thesis
      using None by simp
  next
    case False
    let ?g = "\<lambda>e x. offset_val ex KU L d (us ! e) (its ! e) None x"
    let ?body = "\<lambda>e p. do {
             it \<leftarrow> rd its e;
             v \<leftarrow> rd d (unat ((it - 1) * word_of_int KU));
             add_at p e v }"
    have step: "e < length p \<and> p' = p[e := ?g e (p ! e)]" if "?body e p = Some p'" for e p p'
      using that False by (auto simp: bind_eq_Some_conv rd_Some add_at_Some offset_val_def)
    have "for_loop n ?body preds = Some preds'"
      using run None False by (simp add: addOffsets_def)
    from for_loop_pointwise [of n ?body ?g, OF step this] show ?thesis
      using None by simp
  qed
qed

text \<open>
  Conversely, a call whose reads are all in range returns, with these values in the
  first \<open>n\<close> slots.
\<close>

lemma rd_in_range: "i < length xs \<Longrightarrow> rd xs i = Some (xs ! i)"
  by (simp add: rd_def)

lemma inner_loop_total:
  assumes "e < length p" "dPtr + K \<le> length d" "lPtr + K \<le> length L"
  shows "for_loop K (\<lambda>i q. do {
               dv \<leftarrow> rd d (dPtr + i);
               lt \<leftarrow> rd L (lPtr + i);
               add_at q e (dv * ex lt) }) p =
         Some (p[e := integ_val ex L d lPtr dPtr K (p ! e)])"
  using assms
  by (induction K) (simp_all add: integ_val_def rd_def add_at_def)

lemma addOffsets_returns:
  assumes len: "n \<le> length preds" "n \<le> length its"
    and zs: "\<forall>zs. z = Some zs \<longrightarrow> n \<le> length zs \<and>
        (\<forall>e < n. unat ((its ! e - 1) * word_of_int KU + (zs ! e - 1)) < length d)"
    and integ: "z = None \<and> 1 < KU \<longrightarrow> n \<le> length us \<and>
        (\<forall>e < n. unat ((its ! e - 1) * word_of_int KU) + nat KU \<le> length d \<and>
                  unat ((us ! e - 1) * word_of_int KU) + nat KU \<le> length L)"
    and single: "z = None \<and> KU \<le> 1 \<longrightarrow>
        (\<forall>e < n. unat ((its ! e - 1) * word_of_int KU) < length d)"
  shows "addOffsets ex us its KU n L d z preds =
     Some (map (\<lambda>e. if e < n
                    then offset_val ex KU L d (us ! e) (its ! e) (map_option (\<lambda>z. z ! e) z) (preds ! e)
                    else preds ! e) [0..<length preds])"
proof (cases z)
  case (Some zs)
  let ?g = "\<lambda>e x. offset_val ex KU L d (us ! e) (its ! e) (Some (zs ! e)) x"
  have "for_loop n (\<lambda>e p. do {
           it \<leftarrow> rd its e;
           ze \<leftarrow> rd zs e;
           v \<leftarrow> rd d (unat ((it - 1) * word_of_int KU + (ze - 1)));
           add_at p e v }) preds =
        Some (map (\<lambda>e. if e < n then ?g e (preds ! e) else preds ! e) [0..<length preds])"
    using len zs Some
    by (intro for_loop_total) (simp_all add: rd_def add_at_def offset_val_def)
  then show ?thesis using Some by (simp add: addOffsets_def)
next
  case None
  show ?thesis
  proof (cases "1 < KU")
    case True
    let ?g = "\<lambda>e x. offset_val ex KU L d (us ! e) (its ! e) None x"
    have "for_loop n (\<lambda>e p. do {
             us \<leftarrow> rd us e;
             it \<leftarrow> rd its e;
             let logthetaPtr = unat ((us - 1) * word_of_int KU);
             let dPtr = unat ((it - 1) * word_of_int KU);
             for_loop (nat KU) (\<lambda>i q. do {
               dv \<leftarrow> rd d (dPtr + i);
               lt \<leftarrow> rd L (logthetaPtr + i);
               add_at q e (dv * ex lt) }) p }) preds =
        Some (map (\<lambda>e. if e < n then ?g e (preds ! e) else preds ! e) [0..<length preds])"
      using len integ None True
      by (intro for_loop_total) (simp_all add: rd_in_range Let_def offset_val_def inner_loop_total)
    then show ?thesis using None True by (simp add: addOffsets_def)
  next
    case False
    let ?g = "\<lambda>e x. offset_val ex KU L d (us ! e) (its ! e) None x"
    have "for_loop n (\<lambda>e p. do {
             it \<leftarrow> rd its e;
             v \<leftarrow> rd d (unat ((it - 1) * word_of_int KU));
             add_at p e v }) preds =
        Some (map (\<lambda>e. if e < n then ?g e (preds ! e) else preds ! e) [0..<length preds])"
      using len single None False
      by (intro for_loop_total) (simp_all add: rd_def add_at_def offset_val_def)
    then show ?thesis using None False by (simp add: addOffsets_def)
  qed
qed

lemma addOffsets_single_topic:
  "addOffsets ex us its 1 n L d None preds = addOffsets ex us its 1 n L d (Some (replicate n 1)) preds"
  unfolding addOffsets_def
  by (simp, rule for_loop_cong) (simp add: rd_def)

subsection \<open>mexFunction on one example\<close>

lemma ddot_loop:
  "for_loop k (\<lambda>i dtemp. do {
       x \<leftarrow> rd dx (xoff + i);
       y \<leftarrow> rd dy (yoff + i);
       Some (dtemp + x * y) }) t0 = Some r \<Longrightarrow>
   r = foldl (\<lambda>t i. t + dx ! (xoff + i) * dy ! (yoff + i)) t0 [0..<k]"
  by (induction k arbitrary: r) (auto simp: bind_eq_Some_conv rd_Some)

lemma ddot_val: "ddot n dx xoff dy yoff = Some r \<Longrightarrow> r = dot_val n dx xoff dy yoff"
  unfolding ddot_def dot_val_def by (rule ddot_loop)

lemma base_pointwise:
  assumes run: "(if fB then
       if numFacs > 0 then
         for_loop n (\<lambda>e p. do {
           us \<leftarrow> rd usrs e;
           it \<leftarrow> rd itms e;
           let aVec = nat (numFacs * uint (us - 1));
           let bVec = nat (numFacs * uint (it - 1));
           dp \<leftarrow> ddot numFacs a aVec b bVec;
           add_at p e (chi + dp) }) preds
       else
         for_loop n (\<lambda>e p. add_at p e chi) preds
     else Some preds) = Some preds'"
  shows "length preds' = length preds \<and>
     (\<forall>e < length preds. preds' ! e =
        (if e < n then base_val fB chi numFacs a b (usrs ! e) (itms ! e) (preds ! e) else preds ! e))"
proof (cases fB)
  case False
  then show ?thesis using run by (auto simp: base_val_def)
next
  case fB: True
  show ?thesis
  proof (cases "numFacs > 0")
    case True
    let ?g = "\<lambda>e x. base_val fB chi numFacs a b (usrs ! e) (itms ! e) x"
    let ?body = "\<lambda>e p. do {
           us \<leftarrow> rd usrs e;
           it \<leftarrow> rd itms e;
           let aVec = nat (numFacs * uint (us - 1));
           let bVec = nat (numFacs * uint (it - 1));
           dp \<leftarrow> ddot numFacs a aVec b bVec;
           add_at p e (chi + dp) }"
    have step: "e < length p \<and> p' = p[e := ?g e (p ! e)]" if "?body e p = Some p'" for e p p'
      using that True fB
      by (auto simp: bind_eq_Some_conv rd_Some add_at_Some base_val_def Let_def dest!: ddot_val)
    have "for_loop n ?body preds = Some preds'"
      using run fB True by simp
    from for_loop_pointwise [of n ?body ?g, OF step this] show ?thesis by simp
  next
    case False
    let ?g = "\<lambda>e x. base_val fB chi numFacs a b (usrs ! e) (itms ! e) x"
    let ?body = "\<lambda>e p. add_at p e chi"
    have step: "e < length p \<and> p' = p[e := ?g e (p ! e)]" if "?body e p = Some p'" for e p p'
      using that False fB by (auto simp: add_at_Some base_val_def)
    have "for_loop n ?body preds = Some preds'"
      using run fB False by simp
    from for_loop_pointwise [of n ?body ?g, OF step this] show ?thesis by simp
  qed
qed

lemma sample_body_pointwise:
  assumes run: "sample_body ex inp chi KU KM numFacs n s preds = Some preds'"
    and len: "length preds = n"
  shows "length preds' = n \<and>
     (\<forall>e < n. preds' ! e =
        sample_val ex (addBase inp) (addC inp) (addD inp) chi KU KM numFacs s
          (users inp ! e) (items inp ! e)
          (map_option (\<lambda>z. z ! e) (zU inp)) (map_option (\<lambda>z. z ! e) (zM inp)) (preds ! e))"
proof -
  from run obtain p1 p2 where
    p1: "(if KU > 0 \<and> addD inp
          then addOffsets ex (users inp) (items inp) KU n (mxPr (s_logthetaU s)) (mxPr (s_d s)) (zU inp) preds
          else Some preds) = Some p1"
    and p2: "(if KM > 0 \<and> addC inp
          then addOffsets ex (items inp) (users inp) KM n (mxPr (s_logthetaM s)) (mxPr (s_c s)) (zM inp) p1
          else Some p1) = Some p2"
    and p3: "(if addBase inp then
       if numFacs > 0 then
         for_loop n (\<lambda>e p. do {
           us \<leftarrow> rd (users inp) e;
           it \<leftarrow> rd (items inp) e;
           let aVec = nat (numFacs * uint (us - 1));
           let bVec = nat (numFacs * uint (it - 1));
           dp \<leftarrow> ddot numFacs (mxPr (s_a s)) aVec (mxPr (s_b s)) bVec;
           add_at p e (chi + dp) }) p2
       else
         for_loop n (\<lambda>e p. add_at p e chi) p2
     else Some p2) = Some preds'"
    unfolding sample_body_def Let_def by (auto simp: bind_eq_Some_conv)
  have 1: "length p1 = n \<and> (\<forall>e < n. p1 ! e =
      (if KU > 0 \<and> addD inp
       then offset_val ex KU (mxPr (s_logthetaU s)) (mxPr (s_d s)) (users inp ! e) (items inp ! e)
              (map_option (\<lambda>z. z ! e) (zU inp)) (preds ! e)
       else preds ! e))"
    using p1 len addOffsets_pointwise [of ex "users inp" "items inp" KU n "mxPr (s_logthetaU s)" "mxPr (s_d s)" "zU inp" preds p1]
    by (auto split: if_splits)
  have 2: "length p2 = n \<and> (\<forall>e < n. p2 ! e =
      (if KM > 0 \<and> addC inp
       then offset_val ex KM (mxPr (s_logthetaM s)) (mxPr (s_c s)) (items inp ! e) (users inp ! e)
              (map_option (\<lambda>z. z ! e) (zM inp)) (p1 ! e)
       else p1 ! e))"
    using p2 1 addOffsets_pointwise [of ex "items inp" "users inp" KM n "mxPr (s_logthetaM s)" "mxPr (s_c s)" "zM inp" p1 p2]
    by (auto split: if_splits)
  have 3: "length preds' = n \<and> (\<forall>e < n. preds' ! e =
       base_val (addBase inp) chi numFacs (mxPr (s_a s)) (mxPr (s_b s)) (users inp ! e) (items inp ! e) (p2 ! e))"
    using base_pointwise [OF p3] 2 by simp
  show ?thesis
  proof (intro conjI allI impI)
    show "length preds' = n" using 3 by simp
  next
    fix e assume e: "e < n"
    from 1 e have e1: "p1 ! e =
      (if KU > 0 \<and> addD inp
       then offset_val ex KU (mxPr (s_logthetaU s)) (mxPr (s_d s)) (users inp ! e) (items inp ! e)
              (map_option (\<lambda>z. z ! e) (zU inp)) (preds ! e)
       else preds ! e)" by blast
    from 2 e have e2: "p2 ! e =
      (if KM > 0 \<and> addC inp
       then offset_val ex KM (mxPr (s_logthetaM s)) (mxPr (s_c s)) (items inp ! e) (users inp ! e)
              (map_option (\<lambda>z. z ! e) (zM inp)) (p1 ! e)
       else p1 ! e)" by blast
    from 3 e have e3: "preds' ! e =
       base_val (addBase inp) chi numFacs (mxPr (s_a s)) (mxPr (s_b s)) (users inp ! e) (items inp ! e) (p2 ! e)"
      by blast
    show "preds' ! e =
        sample_val ex (addBase inp) (addC inp) (addD inp) chi KU KM numFacs s
          (users inp ! e) (items inp ! e)
          (map_option (\<lambda>z. z ! e) (zU inp)) (map_option (\<lambda>z. z ! e) (zM inp)) (preds ! e)"
      unfolding sample_val_def Let_def e3 e2 e1 ..
  qed
qed

lemma samples_loop:
  assumes run: "for_loop T (\<lambda>t p. do {
       s \<leftarrow> rd smps t;
       sample_body ex inp chi KU KM numFacs n s p }) p0 = Some p'"
    and len: "length p0 = n"
  shows "T \<le> length smps \<and> length p' = n \<and>
     (\<forall>e < n. p' ! e =
        foldl (\<lambda>acc s. sample_val ex (addBase inp) (addC inp) (addD inp) chi KU KM numFacs s
                 (users inp ! e) (items inp ! e)
                 (map_option (\<lambda>z. z ! e) (zU inp)) (map_option (\<lambda>z. z ! e) (zM inp)) acc)
          (p0 ! e) (take T smps))"
  using run
proof (induction T arbitrary: p')
  case 0
  then show ?case using len by simp
next
  case (Suc T)
  from Suc.prems obtain q where q: "for_loop T (\<lambda>t p. do {
       s \<leftarrow> rd smps t;
       sample_body ex inp chi KU KM numFacs n s p }) p0 = Some q"
    and T: "T < length smps"
    and b: "sample_body ex inp chi KU KM numFacs n (smps ! T) q = Some p'"
    by (auto simp: bind_eq_Some_conv rd_Some)
  note ih = Suc.IH [OF q]
  from ih have lq: "length q = n" by simp
  note sb = sample_body_pointwise [OF b lq]
  show ?case using T ih sb by (simp add: take_Suc_conv_app_nth)
qed

lemma form_predictions_pointwise:
  assumes run: "form_predictions ex inp = Some acc"
  shows "samples inp \<noteq> [] \<and> length acc = length (users inp) \<and>
     (\<forall>e < length (users inp). acc ! e =
        example_acc ex (addBase inp) (addC inp) (addD inp) (samples inp)
          (users inp ! e) (items inp ! e)
          (map_option (\<lambda>z. z ! e) (zU inp)) (map_option (\<lambda>z. z ! e) (zM inp)))"
proof -
  let ?s0 = "samples inp ! 0"
  from run have ne: "samples inp \<noteq> []"
    and lp: "for_loop (length (samples inp)) (\<lambda>t p. do {
       s \<leftarrow> rd (samples inp) t;
       sample_body ex inp (mxPr (s_chi ?s0) ! 0) (int (mxM (s_logthetaU ?s0)))
         (int (mxM (s_logthetaM ?s0))) (int (mxM (s_a ?s0))) (length (users inp)) s p })
       (replicate (length (users inp)) 0) = Some acc"
    unfolding form_predictions_def Let_def numExamples_of_def numSamples_of_def
    by (auto simp: bind_eq_Some_conv rd_Some)
  from samples_loop [OF lp] ne show ?thesis
    by (simp add: example_acc_def Let_def)
qed

lemma div_loop:
  assumes run: "for_loop n (\<lambda>e p. div_at p e v) preds = Some preds'"
  shows "length preds' = length preds \<and> n \<le> length preds \<and>
     (\<forall>e < length preds. preds' ! e = (if e < n then preds ! e / v else preds ! e))"
proof -
  have step: "e < length p \<and> p' = p[e := (\<lambda>e x. x / v) e (p ! e)]"
    if "(\<lambda>e p. div_at p e v) e p = Some p'" for e p p'
    using that by (simp add: div_at_Some)
  from for_loop_pointwise [of n "\<lambda>e p. div_at p e v" "\<lambda>e x. x / v", OF step run]
  show ?thesis by simp
qed

lemma mexFunction_pointwise:
  assumes run: "mexFunction ex cvt inp = Some out"
  shows "samples inp \<noteq> [] \<and> length out = length (users inp) \<and>
     (\<forall>e < length (users inp). out ! e =
        example_val ex cvt (addBase inp) (addC inp) (addD inp) (samples inp)
          (users inp ! e) (items inp ! e)
          (map_option (\<lambda>z. z ! e) (zU inp)) (map_option (\<lambda>z. z ! e) (zM inp)))"
proof -
  from run obtain acc where acc: "form_predictions ex inp = Some acc"
    and fin: "(if length (samples inp) > 1
       then for_loop (length (users inp)) (\<lambda>e p. div_at p e (cvt (length (samples inp)))) acc
       else Some acc) = Some out"
    unfolding mexFunction_def Let_def numExamples_of_def numSamples_of_def
    by (auto simp: bind_eq_Some_conv)
  note fp = form_predictions_pointwise [OF acc]
  show ?thesis
  proof (cases "length (samples inp) > 1")
    case True
    with fin have "for_loop (length (users inp)) (\<lambda>e p. div_at p e (cvt (length (samples inp)))) acc = Some out"
      by simp
    from div_loop [OF this] fp True show ?thesis
      by (simp add: example_val_def)
  next
    case False
    with fin fp show ?thesis by (simp add: example_val_def)
  qed
qed

lemma sample_body_single_topic:
  assumes "length (users inp) = n"
  shows "sample_body ex (inp\<lparr>zU := None\<rparr>) chi 1 KM numFacs n s preds =
         sample_body ex (inp\<lparr>zU := Some (replicate n 1)\<rparr>) chi 1 KM numFacs n s preds"
  unfolding sample_body_def Let_def
  by (simp add: addOffsets_single_topic assms cong: if_cong)

lemma samples_loop_single_topic:
  assumes "length (users inp) = n"
  shows "for_loop T (\<lambda>t p. do {
       s \<leftarrow> rd smps t;
       sample_body ex (inp\<lparr>zU := None\<rparr>) chi 1 KM numFacs n s p }) p0 =
     for_loop T (\<lambda>t p. do {
       s \<leftarrow> rd smps t;
       sample_body ex (inp\<lparr>zU := Some (replicate n 1)\<rparr>) chi 1 KM numFacs n s p }) p0"
  by (rule for_loop_cong) (simp add: sample_body_single_topic [OF assms])

lemma form_predictions_single_topic:
  assumes "mxM (s_logthetaU (samples inp ! 0)) = 1"
  shows "form_predictions ex (inp\<lparr>zU := None\<rparr>) =
         form_predictions ex (inp\<lparr>zU := Some (replicate (length (users inp)) 1)\<rparr>)"
proof (cases "rd (samples inp) 0")
  case None
  then show ?thesis by (simp add: form_predictions_def)
next
  case (Some s0)
  with assms have K: "mxM (s_logthetaU s0) = 1" by (simp add: rd_Some)
  show ?thesis
  proof (cases "rd (mxPr (s_chi s0)) 0")
    case None
    with Some show ?thesis by (simp add: form_predictions_def)
  next
    case chi: (Some chi)
    show ?thesis
      using Some chi K samples_loop_single_topic [of inp "length (users inp)"]
      by (simp add: form_predictions_def numExamples_of_def numSamples_of_def)
  qed
qed

subsection \<open>The average, and calls that always return\<close>

lemma mexFunction_average:
  assumes "1 < numSamples_of inp"
  shows "mexFunction ex cvt inp =
     map_option (map (\<lambda>x. x / cvt (numSamples_of inp))) (form_predictions ex inp)"
proof (cases "form_predictions ex inp")
  case None
  then show ?thesis by (simp add: mexFunction_def)
next
  case (Some acc)
  from form_predictions_pointwise [OF Some] have "length acc = numExamples_of inp"
    by (simp add: numExamples_of_def)
  then show ?thesis
    using Some assms div_loop_total [of acc "cvt (numSamples_of inp)"]
    by (simp add: mexFunction_def)
qed

lemma mexFunction_single:
  assumes "numSamples_of inp \<le> 1"
  shows "mexFunction ex cvt inp = form_predictions ex inp"
  using assms by (cases "form_predictions ex inp") (simp_all add: mexFunction_def)

lemma sample_body_no_flags:
  "\<not> addBase inp \<Longrightarrow> \<not> addC inp \<Longrightarrow> \<not> addD inp \<Longrightarrow>
   sample_body ex inp chi KU KM numFacs n s preds = Some preds"
  by (simp add: sample_body_def)

lemma form_predictions_no_flags:
  assumes "samples inp \<noteq> []" "mxPr (s_chi (samples inp ! 0)) \<noteq> []"
    "\<not> addBase inp" "\<not> addC inp" "\<not> addD inp"
  shows "form_predictions ex inp = Some (replicate (length (users inp)) 0)"
  using assms
  by (simp add: form_predictions_def rd_def sample_body_no_flags numExamples_of_def
      numSamples_of_def skip_loop [unfolded rd_def])

lemma form_predictions_bias_only:
  fixes inp :: "real prhs"
  assumes "samples inp = [s]" "mxM (s_a s) = 0" "mxPr (s_chi s) \<noteq> []"
    "addBase inp" "\<not> addC inp" "\<not> addD inp"
  shows "form_predictions ex inp = Some (replicate (length (users inp)) (mxPr (s_chi s) ! 0))"
  using assms add_loop_total [of "replicate (length (users inp)) 0" "mxPr (s_chi s) ! 0"]
  by (simp add: form_predictions_def rd_def sample_body_def numExamples_of_def numSamples_of_def)

subsection \<open>Index arithmetic without wrap-around\<close>




subsection \<open>The sums in real arithmetic\<close>

lemma integ_val_real:
  "integ_val exp L d lp dp K (acc::real) = acc + (\<Sum>i<K. d ! (dp + i) * exp (L ! (lp + i)))"
  by (induction K) (simp_all add: integ_val_def)

lemma offset_val_real:
  "offset_val exp K L d us it ze (acc::real) = acc + offset_term K L d us it ze"
  by (simp add: offset_val_def offset_term_def integ_val_real split: option.splits)

lemma dot_loop_real:
  "foldl (\<lambda>t i. t + f i) (t0::real) [0..<k] = t0 + (\<Sum>i<k. f i)"
  by (induction k) simp_all

lemma dot_val_real:
  "dot_val n a xo b yo = (\<Sum>i<nat n. a ! (xo + i) * (b ! (yo + i) :: real))"
  unfolding dot_val_def by (simp add: dot_loop_real)

lemma base_val_real:
  "base_val fB chi numFacs (mxPr (s_a s)) (mxPr (s_b s)) us it (acc::real) =
     acc + base_term fB chi numFacs s us it"
  by (simp add: base_val_def base_term_def dot_term_def dot_val_real)

lemma sample_val_real:
  "sample_val exp fB fC fD chi KU KM numFacs s us it zu zm (acc::real) =
     acc + (offsets_term fC fD KU KM s us it zu zm + base_term fB chi numFacs s us it)"
  by (simp add: sample_val_def Let_def offset_val_real base_val_real offsets_term_def)

lemma foldl_terms_real:
  "foldl (\<lambda>acc s. acc + f s) (a::real) xs = a + (\<Sum>t<length xs. f (xs ! t))"
proof (induction xs rule: rev_induct)
  case Nil
  show ?case by simp
next
  case (snoc x xs)
  have "(\<Sum>t<length xs. f ((xs @ [x]) ! t)) = (\<Sum>t<length xs. f (xs ! t))"
    by (rule sum.cong) (simp_all add: nth_append)
  with snoc show ?case by simp
qed

lemma example_acc_real:
  "example_acc exp (addBase inp) (addC inp) (addD inp) (samples inp) (users inp ! e) (items inp ! e)
     (map_option (\<lambda>z. z ! e) (zU inp)) (map_option (\<lambda>z. z ! e) (zM inp)) =
   (\<Sum>t<length (samples inp). sample_term inp t e)"
  unfolding example_acc_def Let_def sample_val_real
  by (simp add: foldl_terms_real sample_term_def Let_def)

lemma mexFunction_real_closed_form:
  assumes run: "mexFunction exp real inp = Some out"
  shows "length out = length (users inp) \<and>
     (\<forall>e < length (users inp).
        out ! e = (\<Sum>t<length (samples inp). sample_term inp t e) / real (length (samples inp)))"
proof -
  note pw = mexFunction_pointwise [OF run]
  then have "length (samples inp) \<ge> 1" by (cases "samples inp") simp_all
  then have "length (samples inp) = 1 \<or> length (samples inp) > 1" by linarith
  then show ?thesis
    using pw by (auto simp: example_val_def example_acc_real)
qed


lemma sample_term_single:
  assumes t: "t < length (samples inp)"
    and dims: "mxM (s_logthetaU (samples inp ! t)) = mxM (s_logthetaU (samples inp ! 0))"
      "mxM (s_logthetaM (samples inp ! t)) = mxM (s_logthetaM (samples inp ! 0))"
      "mxM (s_a (samples inp ! t)) = mxM (s_a (samples inp ! 0))"
    and chi: "addBase inp \<longrightarrow> mxPr (s_chi (samples inp ! t)) ! 0 = mxPr (s_chi (samples inp ! 0)) ! 0"
  shows "sample_term (inp\<lparr>samples := [samples inp ! t]\<rparr>) 0 e = sample_term inp t e"
  using dims chi by (auto simp: sample_term_def Let_def base_term_def)

subsection \<open>Unfolding a concrete call\<close>

lemmas eval_defs = mexFunction_def form_predictions_def sample_body_def ddot_def addOffsets_def
  numExamples_of_def numSamples_of_def rd_def add_at_def div_at_def for_loop_numeral

section \<open>The claims\<close>

text \<open>
  C1, as the spec states it: in a call with the factorization flag set and \<open>F > 0\<close>, the
  sample \<open>t\<close> adds to every example its own \<open>chi\<close> and the inner product of its factor
  vectors. The code reads \<open>chi\<close> once, in line 119, from the sample of index 0, and adds
  that value for every sample: with two samples that differ in \<open>chi\<close> only (1 and 3,
  inner product 10) the output is 11, and the spec's terms average to 12.
\<close>

theorem C1_counterexample:
  "mexFunction exp real chi_varies_input = Some [11] \<and> spec_prediction chi_varies_input 0 = 12"
  by (simp add: eval_defs chi_varies_input_def factor_sample_def spec_prediction_def
      spec_sample_term_def offsets_term_def dot_term_def lessThan_Suc numeral_2_eq_2)

text \<open>
  C1, amended: in a call that returns, with the factorization flag set and \<open>F > 0\<close>, the
  entry of example \<open>e\<close> is the average over the samples \<open>t\<close> of what the enabled offsets
  of sample \<open>t\<close> add, plus the \<open>chi\<close> of the first sample, plus the inner product of
  the factor vectors of sample \<open>t\<close> for the row and the column of \<open>e\<close> (in real
  arithmetic).
\<close>

theorem C1_factorization_first_chi:
  assumes run: "mexFunction exp real inp = Some out"
    and base: "addBase inp" and F: "0 < mxM (s_a (samples inp ! 0))"
  shows "\<forall>e < length (users inp). out ! e =
     (\<Sum>t<length (samples inp).
        offsets_term (addC inp) (addD inp)
          (int (mxM (s_logthetaU (samples inp ! 0)))) (int (mxM (s_logthetaM (samples inp ! 0))))
          (samples inp ! t) (users inp ! e) (items inp ! e)
          (map_option (\<lambda>z. z ! e) (zU inp)) (map_option (\<lambda>z. z ! e) (zM inp)) +
        (mxPr (s_chi (samples inp ! 0)) ! 0 +
         dot_term (int (mxM (s_a (samples inp ! 0))))
           (mxPr (s_a (samples inp ! t))) (mxPr (s_b (samples inp ! t)))
           (users inp ! e) (items inp ! e)))
     / real (length (samples inp))"
  using mexFunction_real_closed_form [OF run] base F
  by (simp add: sample_term_def base_term_def Let_def)

theorem C1_factorization_first_chi_witness:
  "mexFunction exp real two_sample_input = Some [10, 19 / 2] \<and>
   addBase two_sample_input \<and> 0 < mxM (s_a (samples two_sample_input ! 0)) \<and>
   [10, 19 / 2 :: real] ! 1 = ((0 + (1 + 3 * 5)) + (0 + (1 + 1 * 2))) / 2"
proof -
  have run: "mexFunction exp real two_sample_input = Some [10, 19 / 2]"
    by (simp add: eval_defs two_sample_input_def factor_sample_def)
  have base: "addBase two_sample_input" by (simp add: two_sample_input_def)
  have F: "0 < mxM (s_a (samples two_sample_input ! 0))"
    by (simp add: two_sample_input_def factor_sample_def)
  from C1_factorization_first_chi [OF run base F, rule_format, of 1]
  have "[10, 19 / 2 :: real] ! 1 = ((0 + (1 + 3 * 5)) + (0 + (1 + 1 * 2))) / 2"
    by (simp add: two_sample_input_def factor_sample_def offsets_term_def dot_term_def
        lessThan_Suc numeral_2_eq_2)
  with run base F show ?thesis by blast
qed

text \<open>
  C2, as the spec states it: the call on \<open>T\<close> samples returns the elementwise average of
  the \<open>T\<close> calls on one sample each. A call on the sample \<open>t\<close> alone reads \<open>chi\<close> from
  that sample, the call on all of them reads it from the first: with two bias-only
  samples, \<open>chi = 1\<close> and \<open>chi = 3\<close>, the joint call returns 1 and the single calls
  return 1 and 3, whose average is 2.
\<close>

theorem C2_counterexample:
  "mexFunction exp real two_bias_input = Some [1] \<and>
   mexFunction exp real (two_bias_input\<lparr>samples := [samples two_bias_input ! 0]\<rparr>) = Some [1] \<and>
   mexFunction exp real (two_bias_input\<lparr>samples := [samples two_bias_input ! 1]\<rparr>) = Some [3] \<and>
   (1 + 3) / 2 \<noteq> (1::real)"
  by (simp add: eval_defs two_bias_input_def bias_sample_def)

text \<open>
  C2, amended: when the samples have the row counts of the first sample and, if the
  factorization flag is set, its \<open>chi\<close>, and the joint call and the single calls return,
  then every entry of the joint call is the sum of the entries of the single calls divided
  by \<open>T\<close> (in real arithmetic).
\<close>

theorem C2_average_of_single_calls:
  assumes whole: "mexFunction exp real inp = Some out"
    and singles: "\<forall>t < length (samples inp).
        mexFunction exp real (inp\<lparr>samples := [samples inp ! t]\<rparr>) = Some (outs t)"
    and dims: "\<forall>t < length (samples inp).
        mxM (s_logthetaU (samples inp ! t)) = mxM (s_logthetaU (samples inp ! 0)) \<and>
        mxM (s_logthetaM (samples inp ! t)) = mxM (s_logthetaM (samples inp ! 0)) \<and>
        mxM (s_a (samples inp ! t)) = mxM (s_a (samples inp ! 0))"
    and chi: "addBase inp \<longrightarrow> (\<forall>t < length (samples inp).
        mxPr (s_chi (samples inp ! t)) ! 0 = mxPr (s_chi (samples inp ! 0)) ! 0)"
  shows "length out = length (users inp) \<and>
     (\<forall>e < length (users inp).
        out ! e = (\<Sum>t<length (samples inp). outs t ! e) / real (length (samples inp)))"
proof (intro conjI allI impI)
  show "length out = length (users inp)"
    using mexFunction_real_closed_form [OF whole] by simp
next
  fix e assume e: "e < length (users inp)"
  have one: "outs t ! e = sample_term inp t e" if t: "t < length (samples inp)" for t
  proof -
    from singles t have "mexFunction exp real (inp\<lparr>samples := [samples inp ! t]\<rparr>) = Some (outs t)"
      by simp
    from mexFunction_real_closed_form [OF this] e
    have "outs t ! e = sample_term (inp\<lparr>samples := [samples inp ! t]\<rparr>) 0 e"
      by simp
    also have "\<dots> = sample_term inp t e"
      using t dims chi by (intro sample_term_single) simp_all
    finally show ?thesis .
  qed
  have "out ! e = (\<Sum>t<length (samples inp). sample_term inp t e) / real (length (samples inp))"
    using mexFunction_real_closed_form [OF whole] e by simp
  also have "(\<Sum>t<length (samples inp). sample_term inp t e) = (\<Sum>t<length (samples inp). outs t ! e)"
    by (rule sum.cong) (simp_all add: one)
  finally show "out ! e = (\<Sum>t<length (samples inp). outs t ! e) / real (length (samples inp))" .
qed

theorem C2_average_of_single_calls_witness:
  "mexFunction exp real two_sample_input = Some [10, 19 / 2] \<and>
   mexFunction exp real (two_sample_input\<lparr>samples := [samples two_sample_input ! 0]\<rparr>) = Some [11, 16] \<and>
   mexFunction exp real (two_sample_input\<lparr>samples := [samples two_sample_input ! 1]\<rparr>) = Some [9, 3] \<and>
   [10, 19 / 2 :: real] ! 1 = ([11, 16] ! 1 + [9, 3] ! 1) / 2"
proof -
  let ?outs = "\<lambda>t::nat. if t = 0 then [11, 16 :: real] else [9, 3]"
  have whole: "mexFunction exp real two_sample_input = Some [10, 19 / 2]"
    by (simp add: eval_defs two_sample_input_def factor_sample_def)
  have s0: "mexFunction exp real (two_sample_input\<lparr>samples := [samples two_sample_input ! 0]\<rparr>) = Some [11, 16]"
    by (simp add: eval_defs two_sample_input_def factor_sample_def)
  have s1: "mexFunction exp real (two_sample_input\<lparr>samples := [samples two_sample_input ! 1]\<rparr>) = Some [9, 3]"
    by (simp add: eval_defs two_sample_input_def factor_sample_def)
  have len: "length (samples two_sample_input) = 2" by (simp add: two_sample_input_def)
  have singles: "\<forall>t < length (samples two_sample_input).
        mexFunction exp real (two_sample_input\<lparr>samples := [samples two_sample_input ! t]\<rparr>) = Some (?outs t)"
    unfolding len using s0 s1 by (auto simp: less_2_cases_iff)
  have dims: "\<forall>t < length (samples two_sample_input).
        mxM (s_logthetaU (samples two_sample_input ! t)) = mxM (s_logthetaU (samples two_sample_input ! 0)) \<and>
        mxM (s_logthetaM (samples two_sample_input ! t)) = mxM (s_logthetaM (samples two_sample_input ! 0)) \<and>
        mxM (s_a (samples two_sample_input ! t)) = mxM (s_a (samples two_sample_input ! 0))"
    unfolding len by (auto simp: less_2_cases_iff two_sample_input_def factor_sample_def)
  have chi: "addBase two_sample_input \<longrightarrow> (\<forall>t < length (samples two_sample_input).
        mxPr (s_chi (samples two_sample_input ! t)) ! 0 = mxPr (s_chi (samples two_sample_input ! 0)) ! 0)"
    unfolding len by (auto simp: less_2_cases_iff two_sample_input_def factor_sample_def)
  note t = C2_average_of_single_calls [OF whole singles dims chi]
  from t have "\<forall>e < length (users two_sample_input).
        [10, 19 / 2 :: real] ! e = (\<Sum>t<length (samples two_sample_input). ?outs t ! e) / real (length (samples two_sample_input))"
    by blast
  from this [rule_format, of 1] have "[10, 19 / 2 :: real] ! 1 = ([11, 16] ! 1 + [9, 3] ! 1) / 2"
    unfolding len by (simp add: two_sample_input_def lessThan_Suc numeral_2_eq_2)
  with whole s0 s1 show ?thesis by blast
qed





text \<open>
  C5: with a single user topic (\<open>KU = 1\<close>, the row-topic count), the call without topic
  assignments and the call whose assignments \<open>zU\<close> are all 1 return the same result,
  everything else being the same. The equality is between the results of the two runs,
  undefined runs included, and holds for every arithmetic on the doubles: the two
  branches of \<^verbatim>\<open>addOffsets\<close> read the same cell of \<open>d\<close> and add it once.
\<close>

theorem C5_single_topic_paths_agree:
  assumes "mxM (s_logthetaU (samples inp ! 0)) = 1"
  shows "mexFunction ex cvt (inp\<lparr>zU := None\<rparr>) =
         mexFunction ex cvt (inp\<lparr>zU := Some (replicate (length (users inp)) 1)\<rparr>)"
proof -
  have "numExamples_of (inp\<lparr>zU := None\<rparr>) =
        numExamples_of (inp\<lparr>zU := Some (replicate (length (users inp)) 1)\<rparr>)"
    "numSamples_of (inp\<lparr>zU := None\<rparr>) =
     numSamples_of (inp\<lparr>zU := Some (replicate (length (users inp)) 1)\<rparr>)"
    by (simp_all add: numExamples_of_def numSamples_of_def)
  then show ?thesis
    unfolding mexFunction_def Let_def form_predictions_single_topic [OF assms]
    by (simp cong: if_cong)
qed

theorem C5_single_topic_paths_agree_witness:
  "mxM (s_logthetaU (samples single_topic_input ! 0)) = 1 \<and>
   mexFunction exp real (single_topic_input\<lparr>zU := None\<rparr>) = Some [9, 7] \<and>
   mexFunction exp real (single_topic_input\<lparr>zU := Some (replicate (length (users single_topic_input)) 1)\<rparr>)
     = Some [9, 7]"
proof -
  have K: "mxM (s_logthetaU (samples single_topic_input ! 0)) = 1"
    by (simp add: single_topic_input_def single_topic_sample_def)
  have v: "mexFunction exp real (single_topic_input\<lparr>zU := None\<rparr>) = Some [9, 7]"
    by (simp add: mexFunction_def form_predictions_def sample_body_def addOffsets_def
        single_topic_input_def single_topic_sample_def numExamples_of_def numSamples_of_def
        rd_def add_at_def numeral_2_eq_2)
  show ?thesis
    using K v C5_single_topic_paths_agree [OF K, of exp real] by simp
qed

text \<open>
  C6: with at least one sample, whose \<open>chi\<close> can be read, and the three flags false, the
  call returns a vector of \<open>numExamples\<close> zeros (in real arithmetic, where \<open>0 / T = 0\<close>).
\<close>

theorem C6_no_flags_zero:
  assumes "samples inp \<noteq> []" "mxPr (s_chi (samples inp ! 0)) \<noteq> []"
    "\<not> addBase inp" "\<not> addC inp" "\<not> addD inp"
  shows "mexFunction exp real inp = Some (replicate (length (users inp)) 0)"
proof (cases "1 < numSamples_of inp")
  case True
  show ?thesis
    unfolding mexFunction_average [OF True] form_predictions_no_flags [OF assms] by simp
next
  case False
  then have "numSamples_of inp \<le> 1" by simp
  then show ?thesis
    unfolding mexFunction_single [OF \<open>numSamples_of inp \<le> 1\<close>] form_predictions_no_flags [OF assms] by simp
qed

theorem C6_no_flags_zero_witness:
  "samples (rank_one_input\<lparr>addBase := False\<rparr>) \<noteq> [] \<and>
   mxPr (s_chi (samples (rank_one_input\<lparr>addBase := False\<rparr>) ! 0)) \<noteq> [] \<and>
   \<not> addBase (rank_one_input\<lparr>addBase := False\<rparr>) \<and>
   \<not> addC (rank_one_input\<lparr>addBase := False\<rparr>) \<and>
   \<not> addD (rank_one_input\<lparr>addBase := False\<rparr>) \<and>
   mexFunction exp real (rank_one_input\<lparr>addBase := False\<rparr>) = Some [0, 0]"
proof -
  let ?i = "rank_one_input\<lparr>addBase := False\<rparr>"
  have h: "samples ?i \<noteq> []" "mxPr (s_chi (samples ?i ! 0)) \<noteq> []"
    "\<not> addBase ?i" "\<not> addC ?i" "\<not> addD ?i"
    by (simp_all add: rank_one_input_def rank_one_sample_def)
  from C6_no_flags_zero [OF h] have "mexFunction exp real ?i = Some [0, 0]"
    by (simp add: rank_one_input_def numeral_2_eq_2)
  with h show ?thesis by blast
qed

text \<open>
  C7: the accumulation \<open>form_predictions\<close> runs over all the samples: in a run that
  returns, slot \<open>e\<close> of the accumulated vector is \<open>example_acc\<close>, the fold of the
  additions of every sample of the call, in their order, from 0. \<^verbatim>\<open>mexFunction\<close> is this
  accumulation followed by the average: with more than one sample every entry is
  divided once by the number of samples, with exactly one sample the accumulated vector
  is returned with no operation on it. These hold for every arithmetic on the doubles
  and every conversion \<open>cvt\<close>, so that a division by 1 would not pass for no division.
  In real arithmetic the accumulated slot is the sum over all \<open>t < T\<close> of the terms of
  the samples, and in both cases the output is that sum divided by \<open>T\<close>.
\<close>

theorem C7_average_once:
  fixes inp :: "'a::{zero,plus,times,inverse} prhs" and rinp :: "real prhs"
  shows
  "(\<forall>acc. form_predictions ex inp = Some acc \<longrightarrow>
      length acc = length (users inp) \<and>
      (\<forall>e < length (users inp). acc ! e =
         example_acc ex (addBase inp) (addC inp) (addD inp) (samples inp)
           (users inp ! e) (items inp ! e)
           (map_option (\<lambda>z. z ! e) (zU inp)) (map_option (\<lambda>z. z ! e) (zM inp)))) \<and>
   (1 < numSamples_of inp \<longrightarrow>
      mexFunction ex cvt inp =
        map_option (map (\<lambda>x. x / cvt (numSamples_of inp))) (form_predictions ex inp)) \<and>
   (numSamples_of inp = 1 \<longrightarrow> mexFunction ex cvt inp = form_predictions ex inp) \<and>
   (\<forall>out. mexFunction ex cvt inp = Some out \<longrightarrow>
      (\<forall>e < length (users inp). out ! e =
         (if 1 < numSamples_of inp
          then example_acc ex (addBase inp) (addC inp) (addD inp) (samples inp)
                 (users inp ! e) (items inp ! e)
                 (map_option (\<lambda>z. z ! e) (zU inp)) (map_option (\<lambda>z. z ! e) (zM inp))
               / cvt (numSamples_of inp)
          else example_acc ex (addBase inp) (addC inp) (addD inp) (samples inp)
                 (users inp ! e) (items inp ! e)
                 (map_option (\<lambda>z. z ! e) (zU inp)) (map_option (\<lambda>z. z ! e) (zM inp))))) \<and>
   (\<forall>racc. form_predictions exp rinp = Some racc \<longrightarrow>
      (\<forall>e < length (users rinp). racc ! e = (\<Sum>t<numSamples_of rinp. sample_term rinp t e))) \<and>
   mexFunction exp real rinp =
     map_option (map (\<lambda>x. x / real (numSamples_of rinp))) (form_predictions exp rinp) \<and>
   (\<forall>rout. mexFunction exp real rinp = Some rout \<longrightarrow>
      (\<forall>e < length (users rinp).
         rout ! e = (\<Sum>t<numSamples_of rinp. sample_term rinp t e) / real (numSamples_of rinp)))"
proof -
  have acc: "length acc = length (users inp) \<and>
      (\<forall>e < length (users inp). acc ! e =
         example_acc ex (addBase inp) (addC inp) (addD inp) (samples inp)
           (users inp ! e) (items inp ! e)
           (map_option (\<lambda>z. z ! e) (zU inp)) (map_option (\<lambda>z. z ! e) (zM inp)))"
    if "form_predictions ex inp = Some acc" for acc
    using form_predictions_pointwise [OF that] by simp
  have big: "mexFunction ex cvt inp =
        map_option (map (\<lambda>x. x / cvt (numSamples_of inp))) (form_predictions ex inp)"
    if "1 < numSamples_of inp"
    using that by (rule mexFunction_average)
  have one: "mexFunction ex cvt inp = form_predictions ex inp" if "numSamples_of inp = 1"
    using that by (intro mexFunction_single) simp
  have out: "\<forall>e < length (users inp). out ! e =
         (if 1 < numSamples_of inp
          then example_acc ex (addBase inp) (addC inp) (addD inp) (samples inp)
                 (users inp ! e) (items inp ! e)
                 (map_option (\<lambda>z. z ! e) (zU inp)) (map_option (\<lambda>z. z ! e) (zM inp))
               / cvt (numSamples_of inp)
          else example_acc ex (addBase inp) (addC inp) (addD inp) (samples inp)
                 (users inp ! e) (items inp ! e)
                 (map_option (\<lambda>z. z ! e) (zU inp)) (map_option (\<lambda>z. z ! e) (zM inp)))"
    if "mexFunction ex cvt inp = Some out" for out
    using mexFunction_pointwise [OF that] by (simp add: example_val_def numSamples_of_def)
  have racc: "\<forall>e < length (users rinp). racc ! e = (\<Sum>t<numSamples_of rinp. sample_term rinp t e)"
    if "form_predictions exp rinp = Some racc" for racc
    using form_predictions_pointwise [OF that]
    by (simp add: example_acc_real numSamples_of_def)
  have zero: "form_predictions exp rinp = None" if "numSamples_of rinp = 0"
    using that by (simp add: form_predictions_def numSamples_of_def rd_def)
  have req: "mexFunction exp real rinp =
     map_option (map (\<lambda>x. x / real (numSamples_of rinp))) (form_predictions exp rinp)"
  proof -
    consider "numSamples_of rinp = 0" | "numSamples_of rinp = 1" | "1 < numSamples_of rinp"
      by linarith
    then show ?thesis
    proof cases
      case 1
      then show ?thesis using mexFunction_single [of rinp exp real] zero by simp
    next
      case 2
      then show ?thesis using mexFunction_single [of rinp exp real] by (simp add: option.map_ident)
    next
      case 3
      then show ?thesis by (rule mexFunction_average)
    qed
  qed
  have rout: "\<forall>e < length (users rinp).
         rout ! e = (\<Sum>t<numSamples_of rinp. sample_term rinp t e) / real (numSamples_of rinp)"
    if "mexFunction exp real rinp = Some rout" for rout
    using mexFunction_real_closed_form [OF that] by (simp add: numSamples_of_def)
  show ?thesis
    using acc big one out racc req rout by blast
qed

theorem C7_average_once_witness:
  "1 < numSamples_of three_bias_input \<and>
   form_predictions exp three_bias_input = Some [9] \<and>
   [9 :: real] ! 0 = sample_term three_bias_input 0 0 + sample_term three_bias_input 1 0 +
                     sample_term three_bias_input 2 0 \<and>
   mexFunction exp real three_bias_input = Some [9 / 3] \<and>
   numSamples_of rank_one_input = 1 \<and>
   form_predictions exp rank_one_input = Some [11, 16] \<and>
   mexFunction exp real rank_one_input = Some [11, 16]"
proof -
  note t3 = C7_average_once [of exp three_bias_input real three_bias_input]
  note t1 = C7_average_once [of exp rank_one_input real rank_one_input]
  have T3: "1 < numSamples_of three_bias_input"
    by (simp add: numSamples_of_def three_bias_input_def)
  have n3: "numSamples_of three_bias_input = 3"
    by (simp add: numSamples_of_def three_bias_input_def)
  have f3: "form_predictions exp three_bias_input = Some [9]"
    by (simp add: eval_defs three_bias_input_def bias_sample_def)
  have T1: "numSamples_of rank_one_input = 1"
    by (simp add: numSamples_of_def rank_one_input_def)
  have f1: "form_predictions exp rank_one_input = Some [11, 16]"
    by (simp add: eval_defs rank_one_input_def rank_one_sample_def)
  from t3 f3 have "\<forall>e < length (users three_bias_input).
      [9 :: real] ! e = (\<Sum>t<numSamples_of three_bias_input. sample_term three_bias_input t e)"
    by blast
  from this [rule_format, of 0]
  have s3: "[9 :: real] ! 0 = sample_term three_bias_input 0 0 + sample_term three_bias_input 1 0 +
                     sample_term three_bias_input 2 0"
    unfolding n3
    by (simp add: three_bias_input_def bias_sample_def sample_term_def offsets_term_def
        base_term_def lessThan_Suc numeral_3_eq_3 numeral_2_eq_2)
  from t3 T3 have "mexFunction exp real three_bias_input =
      map_option (map (\<lambda>x. x / real (numSamples_of three_bias_input))) (form_predictions exp three_bias_input)"
    by blast
  then have m3: "mexFunction exp real three_bias_input = Some [9 / 3]"
    unfolding n3 f3 by simp
  from t1 T1 have "mexFunction exp real rank_one_input = form_predictions exp rank_one_input"
    by blast
  then have m1: "mexFunction exp real rank_one_input = Some [11, 16]"
    using f1 by simp
  from T3 f3 s3 m3 T1 f1 m1 show ?thesis by blast
qed

text \<open>
  C8: on the first scenario of the spec (\<open>N = 2\<close>, rows \<open>[1, 2]\<close>, columns \<open>[1, 1]\<close>, one
  sample with \<open>F = 1\<close>, \<open>a = [2, 3]\<close>, \<open>b = [5]\<close>, \<open>chi = 1\<close>, no topics, the factorization
  flag only) the output is \<open>[11, 16]\<close>.
\<close>

theorem C8_rank_one_scenario:
  "mexFunction exp real rank_one_input = Some [11, 16]"
  by (simp add: mexFunction_def form_predictions_def sample_body_def ddot_def
      rank_one_input_def rank_one_sample_def numExamples_of_def numSamples_of_def
      rd_def add_at_def numeral_2_eq_2)

text \<open>
  C9: with one sample, \<open>F = 0\<close>, the factorization flag set and the two offset flags
  false, every entry of the output is the \<open>chi\<close> of the sample, and a call that differs
  in the contents of \<open>users\<close> and \<open>items\<close> only returns the same vector (in real
  arithmetic, where \<open>0 + chi = chi\<close>).
\<close>

theorem C9_bias_only:
  assumes "samples inp = [s]" "mxM (s_a s) = 0" "mxPr (s_chi s) \<noteq> []"
    "addBase inp" "\<not> addC inp" "\<not> addD inp"
  shows "mexFunction exp real inp = Some (replicate (length (users inp)) (mxPr (s_chi s) ! 0)) \<and>
    (\<forall>us' its'. length us' = length (users inp) \<longrightarrow>
       mexFunction exp real (inp\<lparr>users := us', items := its'\<rparr>) = mexFunction exp real inp)"
proof -
  have one: "mexFunction exp real i = Some (replicate (length (users i)) (mxPr (s_chi s) ! 0))"
    if "samples i = [s]" "addBase i" "\<not> addC i" "\<not> addD i" for i
  proof -
    have "numSamples_of i \<le> 1" using that by (simp add: numSamples_of_def)
    from mexFunction_single [OF this] show ?thesis
      using form_predictions_bias_only [OF that(1) assms(2,3) that(2,3,4)] by simp
  qed
  show ?thesis
    using one [of inp] one [of "inp\<lparr>users := us', items := its'\<rparr>" for us' its'] assms
    by simp
qed

theorem C9_bias_only_witness:
  "samples bias_only_input = [bias_sample 4] \<and> mxM (s_a (bias_sample 4)) = 0 \<and>
   mxPr (s_chi (bias_sample 4)) \<noteq> [] \<and>
   addBase bias_only_input \<and> \<not> addC bias_only_input \<and> \<not> addD bias_only_input \<and>
   mexFunction exp real bias_only_input = Some [4, 4] \<and>
   mexFunction exp real (bias_only_input\<lparr>users := [7, 9], items := [3, 5]\<rparr>) = Some [4, 4]"
proof -
  have h: "samples bias_only_input = [bias_sample 4]" "mxM (s_a (bias_sample 4)) = 0"
    "mxPr (s_chi (bias_sample 4)) \<noteq> []"
    "addBase bias_only_input" "\<not> addC bias_only_input" "\<not> addD bias_only_input"
    by (simp_all add: bias_only_input_def bias_sample_def)
  note t = C9_bias_only [OF h]
  from t have a: "mexFunction exp real bias_only_input = Some [4, 4]"
    by (simp add: bias_only_input_def bias_sample_def numeral_2_eq_2)
  from t have "length [7, 9 :: u32] = length (users bias_only_input) \<longrightarrow>
       mexFunction exp real (bias_only_input\<lparr>users := [7, 9], items := [3, 5]\<rparr>) =
       mexFunction exp real bias_only_input"
    by blast
  with a have b: "mexFunction exp real (bias_only_input\<lparr>users := [7, 9], items := [3, 5]\<rparr>) = Some [4, 4]"
    by (simp add: bias_only_input_def)
  from h a b show ?thesis by blast
qed

text \<open>
  C10: two calls that return, with the same samples, flags and number of examples, agree
  on the entry \<open>e\<close> of the output when they agree on \<open>users[e]\<close>, \<open>items[e]\<close> and, for
  each of \<open>zU\<close> and \<open>zM\<close>, on whether it is given and on its entry \<open>e\<close>. This holds for
  every arithmetic on the doubles.
\<close>

theorem C10_locality:
  assumes "mexFunction ex cvt inp1 = Some out1" and "mexFunction ex cvt inp2 = Some out2"
    and "samples inp1 = samples inp2"
    and "addBase inp1 = addBase inp2" and "addC inp1 = addC inp2" and "addD inp1 = addD inp2"
    and "length (users inp1) = length (users inp2)"
    and "e < length (users inp1)"
    and "users inp1 ! e = users inp2 ! e" and "items inp1 ! e = items inp2 ! e"
    and "map_option (\<lambda>z. z ! e) (zU inp1) = map_option (\<lambda>z. z ! e) (zU inp2)"
    and "map_option (\<lambda>z. z ! e) (zM inp1) = map_option (\<lambda>z. z ! e) (zM inp2)"
  shows "out1 ! e = out2 ! e"
  using mexFunction_pointwise [OF assms(1)] mexFunction_pointwise [OF assms(2)] assms(3-)
  by simp

theorem C10_locality_witness:
  "mexFunction exp real two_sample_input = Some [10, 19 / 2] \<and>
   mexFunction exp real (two_sample_input\<lparr>users := [1, 1]\<rparr>) = Some [10, 10] \<and>
   [10, 19 / 2 :: real] ! 0 = [10, 10] ! 0"
proof -
  let ?j = "two_sample_input\<lparr>users := [1, 1]\<rparr>"
  have r1: "mexFunction exp real two_sample_input = Some [10, 19 / 2]"
    by (simp add: eval_defs two_sample_input_def factor_sample_def)
  have r2: "mexFunction exp real ?j = Some [10, 10]"
    by (simp add: eval_defs two_sample_input_def factor_sample_def)
  have "[10, 19 / 2 :: real] ! 0 = [10, 10] ! 0"
    by (rule C10_locality [OF r1 r2]) (simp_all add: two_sample_input_def)
  with r1 r2 show ?thesis by blast
qed

end
